theory Spec2Isabelle
  imports Main "HOL-Library.Word"
begin

section \<open>TinyDFPlayer firmware (tinyDFPlayer\_v1.2.ino): data model\<close>

text \<open>
  The firmware targets an ATtiny85 (avr-gcc): \<open>uint8_t\<close> is an 8-bit word,
  \<open>uint16_t\<close> and \<open>unsigned int\<close> are 16-bit words, \<open>int\<close> has 16 bits and
  \<open>uint32_t\<close> has 32 bits. An expression mixing \<open>uint16_t\<close> with an \<open>int\<close>
  literal is evaluated in \<open>unsigned int\<close>, so it wraps modulo \<open>2 ^ 16\<close>.
\<close>

type_synonym u8 = "8 word"
type_synonym u16 = "16 word"
type_synonym u32 = "32 word"

text \<open>Analog values of the buttons, OLED contrast levels, EEPROM usage (the \<open>#define\<close>s).\<close>

definition NEXT :: u16 where
  "NEXT = 552"

definition OK :: u16 where
  "OK = 712"

definition PREV :: u16 where
  "PREV = 790"

definition BRIGHT :: u8 where
  "BRIGHT = 127"

definition DIMM :: u8 where
  "DIMM = 50"

definition USE_EEPROM :: bool where
  "USE_EEPROM = True"

text \<open>
  What the OLED shows after a frame switch: the start screen, the error screen of a
  failed decoder handshake, the battery-empty screen, and the status screen drawn by
  \<open>updateOLED\<close> from folder, foldercounts, file, filecounts, batlevel, pause and volume.
\<close>

datatype screen =
    StartScreen
  | ErrorScreen
  | EmptyScreen
  | StatusScreen u8 u8 u8 u8 u8 bool u8

text \<open>
  Everything the firmware does to its collaborators, in program order: commands and
  queries sent to the DFPlayer, contrast changes and frames sent to the OLED, bytes
  really written to the EEPROM (address, value), and watchdog sleeps.
\<close>

datatype event =
    PlayerVolume u8
  | PlayerReadFolderCounts
  | PlayerReadFileCountsInFolder u8
  | PlayerPlayFolder u8 u8
  | PlayerPause
  | PlayerStart
  | PlayerSleep
  | OledContrast u8
  | OledFrame screen
  | EepromWrite nat u8
  | Sleep

text \<open>
  The global variables of the sketch, the EEPROM contents and the trace of events.
  The field \<open>file\<close> is quoted because the word is reserved in theory files.
\<close>

record player =
  filecounts :: u8
  foldercounts :: u8
  batlevel :: u8
  volume :: u8
  folder :: u8
  "file" :: u8
  pause :: bool
  batcounter :: u16
  lastpoti :: u16
  eeprom :: "nat \<Rightarrow> u8"
  trace :: "event list"

text \<open>
  How a run can fail to return a state: the division in \<open>getBatLevel\<close> by an ADC
  value of zero (undefined in C), a blocking loop that is still waiting when the
  supplied ADC readings are used up, and the endless sleep after a failed handshake.
\<close>

datatype fault = DivisionByZero | InputExhausted | InitFailed

text \<open>The message types of the decoder the loop distinguishes.\<close>

datatype player_event = DFPlayerPlayFinished | DFPlayerOther

text \<open>The button events of the specification.\<close>

datatype ButtonEvent = Previous | Next | OkToggle | NoButton

section \<open>Collaborators\<close>

definition emit :: "event \<Rightarrow> player \<Rightarrow> player" where
  "emit e s = s\<lparr>trace := trace s @ [e]\<rparr>"

text \<open>\<open>sleep()\<close>: power down until the watchdog fires; no variable changes.\<close>

definition sleep :: "player \<Rightarrow> player" where
  "sleep s = emit Sleep s"

text \<open>
  \<open>EEPROM.write\<close> stores a byte; \<open>EEPROM.update\<close> (Arduino EEPROM library) stores it
  only when it differs from the byte already there.
\<close>

definition EEPROM_write :: "nat \<Rightarrow> u8 \<Rightarrow> player \<Rightarrow> player" where
  "EEPROM_write a v s = emit (EepromWrite a v) (s\<lparr>eeprom := (eeprom s)(a := v)\<rparr>)"

definition EEPROM_update :: "nat \<Rightarrow> u8 \<Rightarrow> player \<Rightarrow> player" where
  "EEPROM_update a v s = (if eeprom s a \<noteq> v then EEPROM_write a v s else s)"

text \<open>
  The statement \<open>filecounts = tinyPlayer.readFileCountsInFolder(f)\<close>. The library
  function takes and returns an \<open>int\<close>; its answer \<open>rfc\<close> is a parameter, and the
  assignment to the \<open>uint8_t\<close> variable keeps the low eight bits.
\<close>

definition readFileCountsInFolder :: "(int \<Rightarrow> int) \<Rightarrow> u8 \<Rightarrow> player \<Rightarrow> player" where
  "readFileCountsInFolder rfc f s =
     emit (PlayerReadFileCountsInFolder f) (s\<lparr>filecounts := word_of_int (rfc (uint f))\<rparr>)"

section \<open>Display and DFPlayer functions\<close>

definition updateOLED :: "player \<Rightarrow> player" where
  "updateOLED s =
     emit (OledFrame (StatusScreen (folder s) (foldercounts s) (file s) (filecounts s)
                        (batlevel s) (pause s) (volume s))) s"

definition startFolderPlay :: "(int \<Rightarrow> int) \<Rightarrow> player \<Rightarrow> player" where
  "startFolderPlay rfc s0 =
     (let s1 = (if folder s0 > foldercounts s0
                then (let sa = s0\<lparr>folder := 1, file := 1\<rparr>
                      in readFileCountsInFolder rfc (folder sa) sa)
                else s0);
          s2 = (if file s1 > filecounts s1 then s1\<lparr>file := 1\<rparr> else s1);
          s3 = emit (PlayerPlayFolder (folder s2) (file s2)) s2;
          s4 = s3\<lparr>pause := False\<rparr>;
          s5 = updateOLED s4
      in if USE_EEPROM
         then EEPROM_update 2 (folder s5) (EEPROM_update 1 (file s5) s5)
         else s5)"

text \<open>The events a step from \<open>s\<close> to \<open>s'\<close> appended to the trace, and the decoder's share.\<close>

definition issued :: "player \<Rightarrow> player \<Rightarrow> event list" where
  "issued s s' = drop (length (trace s)) (trace s')"

fun is_player_cmd :: "event \<Rightarrow> bool" where
  "is_player_cmd (PlayerVolume v) = True"
| "is_player_cmd PlayerReadFolderCounts = True"
| "is_player_cmd (PlayerReadFileCountsInFolder f) = True"
| "is_player_cmd (PlayerPlayFolder f n) = True"
| "is_player_cmd PlayerPause = True"
| "is_player_cmd PlayerStart = True"
| "is_player_cmd PlayerSleep = True"
| "is_player_cmd (OledContrast c) = False"
| "is_player_cmd (OledFrame f) = False"
| "is_player_cmd (EepromWrite a v) = False"
| "is_player_cmd Sleep = False"

fun is_eeprom_write :: "event \<Rightarrow> bool" where
  "is_eeprom_write (EepromWrite a v) = True"
| "is_eeprom_write e = False"


section \<open>ADC functions\<close>

text \<open>
  \<open>getAnalog\<close> returns the ADC register after one conversion; the model takes that
  value as an input. \<open>denoiseAnalog\<close> adds eight conversions in a \<open>uint16_t\<close> and
  shifts the sum right by three; \<open>adc k\<close> is the register after conversion \<open>k\<close>.
\<close>

function denoise_loop :: "(nat \<Rightarrow> u16) \<Rightarrow> u8 \<Rightarrow> u16 \<Rightarrow> u16" where
  "denoise_loop adc i result =
     (if i < 8 then denoise_loop adc (i + 1) (result + adc (unat i)) else result)"
  by pat_completeness auto
termination
  by (relation "measure (\<lambda>(adc, i, result). 8 - unat i)")
     (auto simp add: word_less_nat_alt unat_word_ariths)

declare denoise_loop.simps [simp del]

definition denoiseAnalog :: "(nat \<Rightarrow> u16) \<Rightarrow> u16" where
  "denoiseAnalog adc = drop_bit 3 (denoise_loop adc 0 0)"

text \<open>The Arduino macro \<open>constrain(amt, low, high)\<close>, here on \<open>uint32_t\<close>.\<close>

definition constrain :: "u32 \<Rightarrow> u32 \<Rightarrow> u32 \<Rightarrow> u32" where
  "constrain amt low high = (if amt < low then low else if amt > high then high else amt)"

text \<open>
  \<open>getBatLevel\<close>, from the ADC register \<open>adc\<close> of the conversion that measures the
  1.1V reference against Vcc. The division is undefined in C for a zero register.
\<close>

definition getBatLevel :: "u16 \<Rightarrow> fault + u8" where
  "getBatLevel adc =
     (let vcc = (ucast adc :: u32) in
      if vcc = 0 then Inl DivisionByZero
      else (let vcc1 = 1125300 div vcc;
                vcc2 = constrain vcc1 3200 4100;
                result = (ucast ((vcc2 - 3200) div 9) :: u8)
            in Inr result))"

section \<open>Battery check\<close>

text \<open>
  A call of \<open>getBatLevel()\<close> when the coming conversions deliver \<open>adcs\<close>: it uses up
  the first one.
\<close>

definition nextBatLevel :: "u16 list \<Rightarrow> fault + (u8 \<times> u16 list)" where
  "nextBatLevel adcs =
     (case adcs of
        [] \<Rightarrow> Inl InputExhausted
      | adc # rest \<Rightarrow> (case getBatLevel adc of Inl e \<Rightarrow> Inl e | Inr level \<Rightarrow> Inr (level, rest)))"

text \<open>The loop \<open>while (getBatLevel() < 10) sleep();\<close>\<close>

fun waitRecharge :: "u16 list \<Rightarrow> player \<Rightarrow> fault + (u16 list \<times> player)" where
  "waitRecharge [] s = Inl InputExhausted"
| "waitRecharge (adc # adcs) s =
     (case getBatLevel adc of
        Inl e \<Rightarrow> Inl e
      | Inr level \<Rightarrow> if level < 10 then waitRecharge adcs (sleep s) else Inr (adcs, s))"

definition checkBatLevel :: "u16 list \<Rightarrow> player \<Rightarrow> fault + player" where
  "checkBatLevel adcs s0 =
     (case nextBatLevel adcs of
        Inl e \<Rightarrow> Inl e
      | Inr (level, adcs1) \<Rightarrow>
          (let s1 = s0\<lparr>batlevel := level\<rparr> in
           if batlevel s1 = 0
           then (let s2 = emit (OledContrast DIMM) s1;
                     s3 = emit (OledFrame EmptyScreen) s2;
                     s4 = (if \<not> pause s3 then emit PlayerPause s3 else s3)
                 in case waitRecharge adcs1 s4 of
                      Inl e \<Rightarrow> Inl e
                    | Inr (adcs2, s5) \<Rightarrow>
                        (let s6 = emit (OledContrast BRIGHT) s5 in
                         case nextBatLevel adcs2 of
                           Inl e \<Rightarrow> Inl e
                         | Inr (level2, adcs3) \<Rightarrow>
                             (let s7 = s6\<lparr>batlevel := level2\<rparr>;
                                  s8 = (if \<not> pause s7 then emit PlayerStart s7 else s7);
                                  s9 = updateOLED s8
                              in Inr (s9\<lparr>batcounter := 600\<rparr>))))
           else Inr ((updateOLED s1)\<lparr>batcounter := 600\<rparr>)))"

section \<open>Main loop\<close>

text \<open>Check player status: \<open>msg\<close> is the type of the pending message, if one is available.\<close>

definition loop_status :: "(int \<Rightarrow> int) \<Rightarrow> player_event option \<Rightarrow> player \<Rightarrow> player" where
  "loop_status rfc msg s =
     (case msg of
        None \<Rightarrow> s
      | Some type \<Rightarrow>
          if type = DFPlayerPlayFinished
          then startFolderPlay rfc (s\<lparr>file := file s + 1\<rparr>)
          else s)"

text \<open>Get, debounce and set volume: \<open>getpoti\<close> is the result of \<open>denoiseAnalog(POTIPIN)\<close>.\<close>

definition loop_volume :: "u16 \<Rightarrow> player \<Rightarrow> player" where
  "loop_volume getpoti s =
     (let s1 = (if getpoti < lastpoti s - 8 \<or> getpoti > lastpoti s + 8
                then s\<lparr>lastpoti := getpoti\<rparr> else s);
          getvol = (ucast (lastpoti s1 div 34) :: u8)
      in if getvol \<noteq> volume s1
         then updateOLED (emit (PlayerVolume getvol) (s1\<lparr>volume := getvol\<rparr>))
         else s1)"

text \<open>The three window tests on the sample \<open>buttons = getAnalog(BUTTONS)\<close>.\<close>

definition pressedPREV :: "u16 \<Rightarrow> bool" where
  "pressedPREV buttons = (buttons < PREV + 20 \<and> buttons > PREV - 20)"

definition pressedNEXT :: "u16 \<Rightarrow> bool" where
  "pressedNEXT buttons = (buttons < NEXT + 20 \<and> buttons > NEXT - 20)"

definition pressedOK :: "u16 \<Rightarrow> bool" where
  "pressedOK buttons = (buttons < OK + 20 \<and> buttons > OK - 20)"

text \<open>The bodies of the three tests.\<close>

definition onPREV :: "(int \<Rightarrow> int) \<Rightarrow> player \<Rightarrow> player" where
  "onPREV rfc s =
     (let s1 = (if folder s < foldercounts s then s\<lparr>folder := folder s + 1\<rparr>
                else s\<lparr>folder := 1\<rparr>);
          s2 = readFileCountsInFolder rfc (folder s1) s1;
          s3 = s2\<lparr>file := 1\<rparr>
      in startFolderPlay rfc s3)"

definition onNEXT :: "(int \<Rightarrow> int) \<Rightarrow> player \<Rightarrow> player" where
  "onNEXT rfc s = startFolderPlay rfc (s\<lparr>file := file s + 1\<rparr>)"

definition onOK :: "player \<Rightarrow> player" where
  "onOK s =
     (let s1 = s\<lparr>pause := \<not> pause s\<rparr>;
          s2 = (if pause s1 then emit PlayerPause s1 else emit PlayerStart s1)
      in updateOLED s2)"

text \<open>The three tests run one after the other on the same sample.\<close>

definition loop_dispatch :: "(int \<Rightarrow> int) \<Rightarrow> u16 \<Rightarrow> player \<Rightarrow> player" where
  "loop_dispatch rfc buttons s =
     (let s1 = (if pressedPREV buttons then onPREV rfc s else s);
          s2 = (if pressedNEXT buttons then onNEXT rfc s1 else s1);
          s3 = (if pressedOK buttons then onOK s2 else s2)
      in s3)"

text \<open>The loop \<open>while (getAnalog(BUTTONS) < 1000);\<close> over the coming samples.\<close>

fun waitRelease :: "u16 list \<Rightarrow> fault + u16 list" where
  "waitRelease [] = Inl InputExhausted"
| "waitRelease (adc # adcs) = (if adc < 1000 then waitRelease adcs else Inr adcs)"

definition loop_buttons :: "(int \<Rightarrow> int) \<Rightarrow> u16 \<Rightarrow> u16 list \<Rightarrow> player \<Rightarrow> fault + player" where
  "loop_buttons rfc buttons release s =
     (if buttons < 1000
      then (let s1 = loop_dispatch rfc buttons s in
            case waitRelease release of Inl e \<Rightarrow> Inl e | Inr rest \<Rightarrow> Inr s1)
      else Inr s)"

text \<open>Check battery level every now and then.\<close>

definition loop_battery :: "u16 list \<Rightarrow> player \<Rightarrow> fault + player" where
  "loop_battery adcs s =
     (let s1 = s\<lparr>batcounter := batcounter s - 1\<rparr> in
      if batcounter s1 = 0 then checkBatLevel adcs s1 else Inr s1)"

text \<open>What one pass of \<open>loop()\<close> reads from the outside.\<close>

record loop_input =
  in_msg :: "player_event option"
  in_rfc :: "int \<Rightarrow> int"
  in_poti :: "nat \<Rightarrow> u16"
  in_buttons :: u16
  in_release :: "u16 list"
  in_battery :: "u16 list"

definition loop :: "loop_input \<Rightarrow> player \<Rightarrow> fault + player" where
  "loop i s =
     (let s1 = loop_status (in_rfc i) (in_msg i) s;
          s2 = loop_volume (denoiseAnalog (in_poti i)) s1
      in case loop_buttons (in_rfc i) (in_buttons i) (in_release i) s2 of
           Inl e \<Rightarrow> Inl e
         | Inr s3 \<Rightarrow>
             (case loop_battery (in_battery i) s3 of
                Inl e \<Rightarrow> Inl e
              | Inr s4 \<Rightarrow> Inr (sleep s4)))"

section \<open>Setup\<close>

text \<open>The variables as the sketch initialises them, over the EEPROM contents \<open>ee\<close>.\<close>

definition initial :: "(nat \<Rightarrow> u8) \<Rightarrow> player" where
  "initial ee =
     \<lparr>filecounts = 0, foldercounts = 0, batlevel = 0, volume = 20, folder = 1, file = 1,
      pause = False, batcounter = 0, lastpoti = 0, eeprom = ee, trace = []\<rparr>"

text \<open>
  \<open>setup()\<close>: \<open>begin_ok\<close> is the result of the decoder handshake, \<open>adcs\<close> the battery
  conversions, \<open>nfolders\<close> the answer of \<open>readFolderCounts\<close>. After a failed
  handshake the sketch sleeps forever.
\<close>

definition setup_sketch ::
    "bool \<Rightarrow> u16 list \<Rightarrow> int \<Rightarrow> (int \<Rightarrow> int) \<Rightarrow> (nat \<Rightarrow> u8) \<Rightarrow> fault + player" where
  "setup_sketch begin_ok adcs nfolders rfc ee =
     (let s0 = emit (OledFrame StartScreen) (emit (OledContrast BRIGHT) (initial ee)) in
      if \<not> begin_ok then Inl InitFailed
      else (case checkBatLevel adcs s0 of
              Inl e \<Rightarrow> Inl e
            | Inr s1 \<Rightarrow>
                (let s2 = (if USE_EEPROM
                           then (if eeprom s1 0 = 55
                                 then s1\<lparr>file := eeprom s1 1, folder := eeprom s1 2\<rparr>
                                 else EEPROM_write 0 55 s1)
                           else s1);
                     s3 = emit (PlayerVolume (volume s2)) s2;
                     s4 = emit PlayerReadFolderCounts (s3\<lparr>foldercounts := word_of_int nfolders\<rparr>);
                     s5 = readFileCountsInFolder rfc (folder s4) s4
                 in Inr (startFolderPlay rfc s5))))"

section \<open>Reachable states\<close>

text \<open>
  The states the sketch can be in between two sections of \<open>loop()\<close>: the state
  \<open>setup()\<close> returns, and every state a section of the loop returns from such a state.
\<close>

inductive reachable :: "player \<Rightarrow> bool" where
  reach_setup: "setup_sketch begin_ok adcs nfolders rfc ee = Inr s \<Longrightarrow> reachable s"
| reach_status: "reachable s \<Longrightarrow> reachable (loop_status rfc msg s)"
| reach_volume: "reachable s \<Longrightarrow> reachable (loop_volume getpoti s)"
| reach_buttons: "reachable s \<Longrightarrow> loop_buttons rfc buttons release s = Inr s' \<Longrightarrow> reachable s'"
| reach_battery: "reachable s \<Longrightarrow> loop_battery adcs s = Inr s' \<Longrightarrow> reachable s'"
| reach_sleep: "reachable s \<Longrightarrow> reachable (sleep s)"

text \<open>The sketch run for a number of passes of the loop, one input per pass.\<close>

fun run_loop :: "loop_input list \<Rightarrow> player \<Rightarrow> fault + player" where
  "run_loop [] s = Inr s"
| "run_loop (i # is) s = (case loop i s of Inl e \<Rightarrow> Inl e | Inr s' \<Rightarrow> run_loop is s')"

section \<open>The specification's vocabulary\<close>

text \<open>
  The button windows as the specification words them (closed intervals of width 40),
  and as the comparisons of the sketch cut them (both ends excluded).
\<close>

definition classify_spec :: "u16 \<Rightarrow> ButtonEvent" where
  "classify_spec buttons =
     (if 770 \<le> buttons \<and> buttons \<le> 810 then Previous
      else if 692 \<le> buttons \<and> buttons \<le> 732 then OkToggle
      else if 532 \<le> buttons \<and> buttons \<le> 572 then Next
      else NoButton)"

definition classify :: "u16 \<Rightarrow> ButtonEvent" where
  "classify buttons =
     (if 771 \<le> buttons \<and> buttons \<le> 809 then Previous
      else if 693 \<le> buttons \<and> buttons \<le> 731 then OkToggle
      else if 533 \<le> buttons \<and> buttons \<le> 571 then Next
      else NoButton)"

definition handle :: "(int \<Rightarrow> int) \<Rightarrow> ButtonEvent \<Rightarrow> player \<Rightarrow> player" where
  "handle rfc ev s =
     (case ev of
        Previous \<Rightarrow> onPREV rfc s
      | Next \<Rightarrow> onNEXT rfc s
      | OkToggle \<Rightarrow> onOK s
      | NoButton \<Rightarrow> s)"

text \<open>
  The battery mapping as the specification words it, on natural numbers: millivolts
  \<open>1125300 / R\<close>, clamped to 3200 .. 4100, then \<open>(mV - 3200) / 9\<close>.
\<close>

definition batLevel_spec :: "nat \<Rightarrow> nat" where
  "batLevel_spec r = (max 3200 (min 4100 (1125300 div r)) - 3200) div 9"

section \<open>Field lemmas\<close>

lemma emit_simps [simp]:
  "filecounts (emit e s) = filecounts s"
  "foldercounts (emit e s) = foldercounts s"
  "batlevel (emit e s) = batlevel s"
  "volume (emit e s) = volume s"
  "folder (emit e s) = folder s"
  "file (emit e s) = file s"
  "pause (emit e s) = pause s"
  "batcounter (emit e s) = batcounter s"
  "lastpoti (emit e s) = lastpoti s"
  "eeprom (emit e s) = eeprom s"
  "trace (emit e s) = trace s @ [e]"
  by (simp_all add: emit_def)

lemma sleep_simps [simp]:
  "filecounts (sleep s) = filecounts s"
  "foldercounts (sleep s) = foldercounts s"
  "batlevel (sleep s) = batlevel s"
  "volume (sleep s) = volume s"
  "folder (sleep s) = folder s"
  "file (sleep s) = file s"
  "pause (sleep s) = pause s"
  "batcounter (sleep s) = batcounter s"
  "lastpoti (sleep s) = lastpoti s"
  "eeprom (sleep s) = eeprom s"
  "trace (sleep s) = trace s @ [Sleep]"
  by (simp_all add: sleep_def)

lemma updateOLED_simps [simp]:
  "filecounts (updateOLED s) = filecounts s"
  "foldercounts (updateOLED s) = foldercounts s"
  "batlevel (updateOLED s) = batlevel s"
  "volume (updateOLED s) = volume s"
  "folder (updateOLED s) = folder s"
  "file (updateOLED s) = file s"
  "pause (updateOLED s) = pause s"
  "batcounter (updateOLED s) = batcounter s"
  "lastpoti (updateOLED s) = lastpoti s"
  "eeprom (updateOLED s) = eeprom s"
  "trace (updateOLED s) = trace s @ [OledFrame (StatusScreen (folder s) (foldercounts s)
      (file s) (filecounts s) (batlevel s) (pause s) (volume s))]"
  by (simp_all add: updateOLED_def)

lemma EEPROM_write_simps [simp]:
  "filecounts (EEPROM_write a v s) = filecounts s"
  "foldercounts (EEPROM_write a v s) = foldercounts s"
  "batlevel (EEPROM_write a v s) = batlevel s"
  "volume (EEPROM_write a v s) = volume s"
  "folder (EEPROM_write a v s) = folder s"
  "file (EEPROM_write a v s) = file s"
  "pause (EEPROM_write a v s) = pause s"
  "batcounter (EEPROM_write a v s) = batcounter s"
  "lastpoti (EEPROM_write a v s) = lastpoti s"
  "eeprom (EEPROM_write a v s) = (eeprom s)(a := v)"
  "trace (EEPROM_write a v s) = trace s @ [EepromWrite a v]"
  by (simp_all add: EEPROM_write_def)

lemma EEPROM_update_simps [simp]:
  "filecounts (EEPROM_update a v s) = filecounts s"
  "foldercounts (EEPROM_update a v s) = foldercounts s"
  "batlevel (EEPROM_update a v s) = batlevel s"
  "volume (EEPROM_update a v s) = volume s"
  "folder (EEPROM_update a v s) = folder s"
  "file (EEPROM_update a v s) = file s"
  "pause (EEPROM_update a v s) = pause s"
  "batcounter (EEPROM_update a v s) = batcounter s"
  "lastpoti (EEPROM_update a v s) = lastpoti s"
  "eeprom (EEPROM_update a v s) = (eeprom s)(a := v)"
  "trace (EEPROM_update a v s) = trace s @ (if eeprom s a \<noteq> v then [EepromWrite a v] else [])"
  by (auto simp add: EEPROM_update_def)

lemma readFileCountsInFolder_simps [simp]:
  "filecounts (readFileCountsInFolder rfc f s) = word_of_int (rfc (uint f))"
  "foldercounts (readFileCountsInFolder rfc f s) = foldercounts s"
  "batlevel (readFileCountsInFolder rfc f s) = batlevel s"
  "volume (readFileCountsInFolder rfc f s) = volume s"
  "folder (readFileCountsInFolder rfc f s) = folder s"
  "file (readFileCountsInFolder rfc f s) = file s"
  "pause (readFileCountsInFolder rfc f s) = pause s"
  "batcounter (readFileCountsInFolder rfc f s) = batcounter s"
  "lastpoti (readFileCountsInFolder rfc f s) = lastpoti s"
  "eeprom (readFileCountsInFolder rfc f s) = eeprom s"
  "trace (readFileCountsInFolder rfc f s) = trace s @ [PlayerReadFileCountsInFolder f]"
  by (simp_all add: readFileCountsInFolder_def)

section \<open>startFolderPlay\<close>

lemma startFolderPlay_simps [simp]:
  "folder (startFolderPlay rfc s) = (if foldercounts s < folder s then 1 else folder s)"
  "file (startFolderPlay rfc s) =
     (if foldercounts s < folder s then 1 else if filecounts s < file s then 1 else file s)"
  "filecounts (startFolderPlay rfc s) =
     (if foldercounts s < folder s then word_of_int (rfc 1) else filecounts s)"
  "foldercounts (startFolderPlay rfc s) = foldercounts s"
  "batlevel (startFolderPlay rfc s) = batlevel s"
  "volume (startFolderPlay rfc s) = volume s"
  "pause (startFolderPlay rfc s) = False"
  "batcounter (startFolderPlay rfc s) = batcounter s"
  "lastpoti (startFolderPlay rfc s) = lastpoti s"
  by (simp_all add: startFolderPlay_def Let_def USE_EEPROM_def)


lemma issued_append: "trace s' = trace s @ es \<Longrightarrow> issued s s' = es"
  by (simp add: issued_def)

lemma startFolderPlay_eeprom:
  "eeprom (startFolderPlay rfc s) =
     (eeprom s)(1 := file (startFolderPlay rfc s), 2 := folder (startFolderPlay rfc s))"
  by (simp add: startFolderPlay_def Let_def USE_EEPROM_def)

lemma startFolderPlay_trace:
  "trace (startFolderPlay rfc s) =
     trace s @
     (if foldercounts s < folder s then [PlayerReadFileCountsInFolder 1] else []) @
     [PlayerPlayFolder (folder (startFolderPlay rfc s)) (file (startFolderPlay rfc s)),
      OledFrame (StatusScreen (folder (startFolderPlay rfc s)) (foldercounts s)
        (file (startFolderPlay rfc s)) (filecounts (startFolderPlay rfc s))
        (batlevel s) False (volume s))] @
     (if eeprom s 1 \<noteq> file (startFolderPlay rfc s)
      then [EepromWrite 1 (file (startFolderPlay rfc s))] else []) @
     (if eeprom s 2 \<noteq> folder (startFolderPlay rfc s)
      then [EepromWrite 2 (folder (startFolderPlay rfc s))] else [])"
  by (simp add: startFolderPlay_def Let_def USE_EEPROM_def)

lemma startFolderPlay_issued:
  "issued s (startFolderPlay rfc s) =
     (if foldercounts s < folder s then [PlayerReadFileCountsInFolder 1] else []) @
     [PlayerPlayFolder (folder (startFolderPlay rfc s)) (file (startFolderPlay rfc s)),
      OledFrame (StatusScreen (folder (startFolderPlay rfc s)) (foldercounts s)
        (file (startFolderPlay rfc s)) (filecounts (startFolderPlay rfc s))
        (batlevel s) False (volume s))] @
     (if eeprom s 1 \<noteq> file (startFolderPlay rfc s)
      then [EepromWrite 1 (file (startFolderPlay rfc s))] else []) @
     (if eeprom s 2 \<noteq> folder (startFolderPlay rfc s)
      then [EepromWrite 2 (folder (startFolderPlay rfc s))] else [])"
  by (rule issued_append) (rule startFolderPlay_trace)

lemma startFolderPlay_player_cmds:
  "filter is_player_cmd (issued s (startFolderPlay rfc s)) =
     (if foldercounts s < folder s then [PlayerReadFileCountsInFolder 1] else []) @
     [PlayerPlayFolder (folder (startFolderPlay rfc s)) (file (startFolderPlay rfc s))]"
  by (simp add: startFolderPlay_issued del: startFolderPlay_simps)

lemma startFolderPlay_eeprom_writes:
  "filter is_eeprom_write (issued s (startFolderPlay rfc s)) =
     (if eeprom s 1 \<noteq> file (startFolderPlay rfc s)
      then [EepromWrite 1 (file (startFolderPlay rfc s))] else []) @
     (if eeprom s 2 \<noteq> folder (startFolderPlay rfc s)
      then [EepromWrite 2 (folder (startFolderPlay rfc s))] else [])"
  by (simp add: startFolderPlay_issued del: startFolderPlay_simps)

text \<open>
  C2. When folder exceeds foldercounts, startFolderPlay sets folder and file to 1 and
  reloads filecounts with the decoder's answer for folder 1. Otherwise, when file
  exceeds filecounts, it sets file to 1 and keeps folder (and filecounts).
\<close>

theorem startFolderPlay_normalizes:
  "(foldercounts s < folder s \<longrightarrow>
      folder (startFolderPlay rfc s) = 1 \<and> file (startFolderPlay rfc s) = 1 \<and>
      filecounts (startFolderPlay rfc s) = word_of_int (rfc 1) \<and>
      PlayerReadFileCountsInFolder 1 \<in> set (issued s (startFolderPlay rfc s))) \<and>
   (\<not> foldercounts s < folder s \<and> filecounts s < file s \<longrightarrow>
      file (startFolderPlay rfc s) = 1 \<and>
      folder (startFolderPlay rfc s) = folder s \<and>
      filecounts (startFolderPlay rfc s) = filecounts s)"
  by (simp add: startFolderPlay_issued)

theorem startFolderPlay_normalizes_witness:
  "folder (startFolderPlay (\<lambda>f. 7) ((initial (\<lambda>a. 255))\<lparr>foldercounts := 3, folder := 5, file := 9\<rparr>)) = 1 \<and>
   file (startFolderPlay (\<lambda>f. 7) ((initial (\<lambda>a. 255))\<lparr>foldercounts := 3, folder := 5, file := 9\<rparr>)) = 1 \<and>
   filecounts (startFolderPlay (\<lambda>f. 7) ((initial (\<lambda>a. 255))\<lparr>foldercounts := 3, folder := 5, file := 9\<rparr>)) = 7 \<and>
   file (startFolderPlay (\<lambda>f. 7) ((initial (\<lambda>a. 255))\<lparr>foldercounts := 3, folder := 2, filecounts := 4, file := 5\<rparr>)) = 1 \<and>
   folder (startFolderPlay (\<lambda>f. 7) ((initial (\<lambda>a. 255))\<lparr>foldercounts := 3, folder := 2, filecounts := 4, file := 5\<rparr>)) = 2"
  using startFolderPlay_normalizes
          [of "(initial (\<lambda>a. 255))\<lparr>foldercounts := 3, folder := 5, file := 9\<rparr>" "\<lambda>f. 7"]
        startFolderPlay_normalizes
          [of "(initial (\<lambda>a. 255))\<lparr>foldercounts := 3, folder := 2, filecounts := 4, file := 5\<rparr>" "\<lambda>f. 7"]
  by (simp add: initial_def)

section \<open>Bounds after startFolderPlay\<close>

lemma getBatLevel_300: "getBatLevel 300 = Inr 61"
  by (simp add: getBatLevel_def constrain_def)

text \<open>
  An empty folder leaves no file number within bounds. First boot (EEPROM erased to
  255) with a card that reports one folder and no file in it: \<open>setup()\<close> ends with its
  call of startFolderPlay, and the state it returns has file 1 above filecounts 0.
\<close>

lemma startFolderPlay_empty_folder:
  "\<not> isl (setup_sketch True [300] 1 (\<lambda>f. 0) (\<lambda>a. 255)) \<and>
   foldercounts (projr (setup_sketch True [300] 1 (\<lambda>f. 0) (\<lambda>a. 255))) = 1 \<and>
   folder (projr (setup_sketch True [300] 1 (\<lambda>f. 0) (\<lambda>a. 255))) = 1 \<and>
   filecounts (projr (setup_sketch True [300] 1 (\<lambda>f. 0) (\<lambda>a. 255))) = 0 \<and>
   file (projr (setup_sketch True [300] 1 (\<lambda>f. 0) (\<lambda>a. 255))) = 1"
  by (simp add: setup_sketch_def checkBatLevel_def nextBatLevel_def getBatLevel_300
      Let_def USE_EEPROM_def initial_def)

text \<open>
  Where the normalisation does reach the bounds: with foldercounts, folder and file at
  least 1 on entry and at least one file in the folder played, a folder above
  foldercounts has been replaced by 1 (with file 1), otherwise a file above filecounts
  has been replaced by 1, everything within bounds is kept, and the play command is
  for the resulting folder and file.
\<close>

lemma startFolderPlay_within_bounds:
  assumes "1 \<le> foldercounts s" and "1 \<le> folder s" and "1 \<le> file s"
    and "1 \<le> (if foldercounts s < folder s then word_of_int (rfc 1) else filecounts s)"
  shows "folder (startFolderPlay rfc s) = (if foldercounts s < folder s then 1 else folder s) \<and>
         file (startFolderPlay rfc s) =
           (if foldercounts s < folder s \<or> filecounts s < file s then 1 else file s) \<and>
         1 \<le> folder (startFolderPlay rfc s) \<and>
         folder (startFolderPlay rfc s) \<le> foldercounts (startFolderPlay rfc s) \<and>
         1 \<le> file (startFolderPlay rfc s) \<and>
         file (startFolderPlay rfc s) \<le> filecounts (startFolderPlay rfc s) \<and>
         filter is_player_cmd (issued s (startFolderPlay rfc s)) =
           (if foldercounts s < folder s then [PlayerReadFileCountsInFolder 1] else []) @
           [PlayerPlayFolder (folder (startFolderPlay rfc s)) (file (startFolderPlay rfc s))]"
proof -
  have "folder (startFolderPlay rfc s) = (if foldercounts s < folder s then 1 else folder s)"
    by simp
  moreover have "file (startFolderPlay rfc s) =
      (if foldercounts s < folder s \<or> filecounts s < file s then 1 else file s)"
    by simp
  moreover have "1 \<le> folder (startFolderPlay rfc s)"
    using assms(2) by simp
  moreover have "folder (startFolderPlay rfc s) \<le> foldercounts (startFolderPlay rfc s)"
    using assms(1) by (simp add: not_less)
  moreover have "1 \<le> file (startFolderPlay rfc s)"
    using assms(3) by simp
  moreover have "file (startFolderPlay rfc s) \<le> filecounts (startFolderPlay rfc s)"
    using assms(4) by (auto split: if_splits)
  ultimately show ?thesis
    by (simp only: startFolderPlay_player_cmds simp_thms)
qed

section \<open>Calling startFolderPlay twice\<close>

lemma startFolderPlay_again_pair:
  "folder (startFolderPlay rfc2 (startFolderPlay rfc1 s)) = folder (startFolderPlay rfc1 s) \<and>
   file (startFolderPlay rfc2 (startFolderPlay rfc1 s)) = file (startFolderPlay rfc1 s)"
  by (auto simp add: not_less)

lemma startFolderPlay_requery:
  "foldercounts (startFolderPlay rfc1 s) < folder (startFolderPlay rfc1 s) \<longleftrightarrow>
   foldercounts s = 0 \<and> folder s \<noteq> 0"
  by (auto simp add: word_neq_0_conv)

text \<open>
  C7 (as stated: the second of two calls in succession issues no decoder command
  beyond its play command). From the variables as the sketch initialises them
  (foldercounts 0, folder 1), the second call sends a file-count query before it plays.
\<close>

theorem startFolderPlay_twice_counterexample:
  "filter is_player_cmd
     (issued (startFolderPlay (\<lambda>f. 3) (initial (\<lambda>a. 255)))
        (startFolderPlay (\<lambda>f. 3) (startFolderPlay (\<lambda>f. 3) (initial (\<lambda>a. 255))))) =
   [PlayerReadFileCountsInFolder 1, PlayerPlayFolder 1 1]"
  by (simp add: startFolderPlay_player_cmds initial_def)

text \<open>
  C7 (amended). Of two calls of startFolderPlay in succession, the second leaves folder
  and file as the first left them, finds them already stored (the EEPROM holds file at
  address 1 and folder at address 2 after the first call) and writes nothing to the
  EEPROM. It sends the decoder the play command for that folder and file and redraws
  the status screen; it sends a file-count query for folder 1 before the play command
  exactly when foldercounts is 0 and folder was not 0, and nothing else.
\<close>

theorem startFolderPlay_twice:
  assumes "s1 = startFolderPlay rfc1 s" and "s2 = startFolderPlay rfc2 s1"
  shows "folder s2 = folder s1 \<and> file s2 = file s1 \<and>
         eeprom s1 1 = file s1 \<and> eeprom s1 2 = folder s1 \<and> eeprom s2 = eeprom s1 \<and>
         filter is_eeprom_write (issued s1 s2) = [] \<and>
         filter is_player_cmd (issued s1 s2) =
           (if foldercounts s = 0 \<and> folder s \<noteq> 0 then [PlayerReadFileCountsInFolder 1] else []) @
           [PlayerPlayFolder (folder s1) (file s1)] \<and>
         issued s1 s2 =
           (if foldercounts s = 0 \<and> folder s \<noteq> 0 then [PlayerReadFileCountsInFolder 1] else []) @
           [PlayerPlayFolder (folder s1) (file s1),
            OledFrame (StatusScreen (folder s1) (foldercounts s1) (file s1) (filecounts s2)
              (batlevel s1) False (volume s1))]"
proof -
  have pair: "folder s2 = folder s1" "file s2 = file s1"
    using startFolderPlay_again_pair [of rfc2 rfc1 s] assms by simp_all
  have stored: "eeprom s1 1 = file s1" "eeprom s1 2 = folder s1"
    unfolding assms(1) by (simp_all add: startFolderPlay_eeprom del: startFolderPlay_simps)
  have "eeprom s2 = (eeprom s1)(1 := file s2, 2 := folder s2)"
    unfolding assms(2) by (rule startFolderPlay_eeprom)
  then have same: "eeprom s2 = eeprom s1"
    using pair stored by (simp add: fun_upd_idem)
  have writes: "filter is_eeprom_write (issued s1 s2) = []"
    using pair stored startFolderPlay_eeprom_writes [of s1 rfc2] assms(2) by simp
  have "filter is_player_cmd (issued s1 s2) =
          (if foldercounts s1 < folder s1 then [PlayerReadFileCountsInFolder 1] else []) @
          [PlayerPlayFolder (folder s2) (file s2)]"
    unfolding assms(2) by (rule startFolderPlay_player_cmds)
  then have cmds: "filter is_player_cmd (issued s1 s2) =
          (if foldercounts s = 0 \<and> folder s \<noteq> 0 then [PlayerReadFileCountsInFolder 1] else []) @
          [PlayerPlayFolder (folder s1) (file s1)]"
    using startFolderPlay_requery [of rfc1 s] assms(1) pair by simp
  have "issued s1 s2 =
          (if foldercounts s1 < folder s1 then [PlayerReadFileCountsInFolder 1] else []) @
          [PlayerPlayFolder (folder s2) (file s2),
           OledFrame (StatusScreen (folder s2) (foldercounts s1) (file s2) (filecounts s2)
             (batlevel s1) False (volume s1))] @
          (if eeprom s1 1 \<noteq> file s2 then [EepromWrite 1 (file s2)] else []) @
          (if eeprom s1 2 \<noteq> folder s2 then [EepromWrite 2 (folder s2)] else [])"
    unfolding assms(2) by (rule startFolderPlay_issued)
  then have all: "issued s1 s2 =
          (if foldercounts s = 0 \<and> folder s \<noteq> 0 then [PlayerReadFileCountsInFolder 1] else []) @
          [PlayerPlayFolder (folder s1) (file s1),
           OledFrame (StatusScreen (folder s1) (foldercounts s1) (file s1) (filecounts s2)
             (batlevel s1) False (volume s1))]"
    using startFolderPlay_requery [of rfc1 s] assms(1) pair stored by simp
  from pair stored same writes cmds all show ?thesis by simp
qed

theorem startFolderPlay_twice_witness:
  "filter is_player_cmd
     (issued (startFolderPlay (\<lambda>f. 7) ((initial (\<lambda>a. 255))\<lparr>foldercounts := 3, filecounts := 7, file := 8\<rparr>))
        (startFolderPlay (\<lambda>f. 7)
           (startFolderPlay (\<lambda>f. 7) ((initial (\<lambda>a. 255))\<lparr>foldercounts := 3, filecounts := 7, file := 8\<rparr>)))) =
     [PlayerPlayFolder 1 1] \<and>
   filter is_eeprom_write
     (issued (startFolderPlay (\<lambda>f. 7) ((initial (\<lambda>a. 255))\<lparr>foldercounts := 3, filecounts := 7, file := 8\<rparr>))
        (startFolderPlay (\<lambda>f. 7)
           (startFolderPlay (\<lambda>f. 7) ((initial (\<lambda>a. 255))\<lparr>foldercounts := 3, filecounts := 7, file := 8\<rparr>)))) =
     []"
  using startFolderPlay_twice
          [OF refl refl, of "\<lambda>f. 7" "\<lambda>f. 7" "(initial (\<lambda>a. 255))\<lparr>foldercounts := 3, filecounts := 7, file := 8\<rparr>"]
  by (simp add: initial_def)

section \<open>Volume: hysteresis on the potentiometer\<close>

lemma loop_volume_lastpoti:
  "lastpoti (loop_volume getpoti s) =
     (if getpoti < lastpoti s - 8 \<or> getpoti > lastpoti s + 8 then getpoti else lastpoti s)"
  by (simp add: loop_volume_def Let_def)

lemma loop_volume_volume:
  "volume (loop_volume getpoti s) = ucast (lastpoti (loop_volume getpoti s) div 34)"
  by (simp add: loop_volume_def Let_def)

lemma loop_volume_kept [simp]:
  "filecounts (loop_volume getpoti s) = filecounts s"
  "foldercounts (loop_volume getpoti s) = foldercounts s"
  "batlevel (loop_volume getpoti s) = batlevel s"
  "folder (loop_volume getpoti s) = folder s"
  "file (loop_volume getpoti s) = file s"
  "pause (loop_volume getpoti s) = pause s"
  "batcounter (loop_volume getpoti s) = batcounter s"
  "eeprom (loop_volume getpoti s) = eeprom s"
  by (simp_all add: loop_volume_def Let_def)

text \<open>
  Away from the low end the comparison is the hysteresis band of 8: with the tracked
  value between 8 and 1023, a sample of at most 1023 replaces it exactly when the two
  differ by more than 8.
\<close>

lemma loop_volume_hysteresis:
  assumes "8 \<le> lastpoti s" and "lastpoti s \<le> 1023" and "getpoti \<le> 1023"
  shows "lastpoti (loop_volume getpoti s) =
           (if unat getpoti + 8 < unat (lastpoti s) \<or> unat (lastpoti s) + 8 < unat getpoti
            then getpoti else lastpoti s)"
proof -
  have a: "unat (lastpoti s - 8) = unat (lastpoti s) - 8"
    using assms(1) by (simp add: unat_sub)
  have b: "unat (lastpoti s + 8) = unat (lastpoti s) + 8"
    using assms(2) by (simp add: unat_word_ariths word_le_nat_alt)
  have c: "8 \<le> unat (lastpoti s)"
    using assms(1) by (simp add: word_le_nat_alt)
  have "(getpoti < lastpoti s - 8 \<or> getpoti > lastpoti s + 8) \<longleftrightarrow>
        (unat getpoti + 8 < unat (lastpoti s) \<or> unat (lastpoti s) + 8 < unat getpoti)"
    using a b c by (simp add: word_less_nat_alt) arith
  then show ?thesis
    by (simp only: loop_volume_lastpoti)
qed

text \<open>
  Below 8 the subtraction \<open>lastpoti - 8\<close> wraps to a value above 65527, so every
  sample of at most 1023 replaces the tracked value.
\<close>

lemma loop_volume_low_end:
  assumes "lastpoti s < 8" and "getpoti \<le> 1023"
  shows "lastpoti (loop_volume getpoti s) = getpoti"
proof -
  have "unat (lastpoti s - 8) = unat (lastpoti s) + 65536 - 8"
    using assms(1) by (simp add: unat_sub_if' word_less_nat_alt)
  then have "getpoti < lastpoti s - 8"
    using assms(2) by (simp add: word_less_nat_alt word_le_nat_alt)
  then show ?thesis
    by (simp add: loop_volume_lastpoti)
qed

text \<open>The volume is the tracked value divided by 34, at most 30 on the ADC's range.\<close>

lemma loop_volume_range:
  assumes "lastpoti s \<le> 1023" and "getpoti \<le> 1023"
  shows "unat (volume (loop_volume getpoti s)) = unat (lastpoti (loop_volume getpoti s)) div 34 \<and>
         volume (loop_volume getpoti s) \<le> 30"
proof -
  have "lastpoti (loop_volume getpoti s) \<le> 1023"
    using assms by (simp add: loop_volume_lastpoti)
  then have le: "unat (lastpoti (loop_volume getpoti s)) \<le> 1023"
    by (simp add: word_le_nat_alt)
  then have "unat (lastpoti (loop_volume getpoti s)) div 34 \<le> 30"
    by arith
  moreover have "unat (volume (loop_volume getpoti s)) =
      take_bit 8 (unat (lastpoti (loop_volume getpoti s)) div 34)"
    by (simp add: loop_volume_volume unsigned_ucast_eq unat_div)
  ultimately show ?thesis
    by (simp add: take_bit_nat_eq_self word_le_nat_alt)
qed

text \<open>
  C3 (the tracked value is replaced if and only if the sample differs from it by more
  than 8). With the tracked value at 5 a sample of 6 differs by 1 and still replaces
  it: \<open>5 - 8\<close> is 65533 in \<open>unsigned int\<close>, and 6 is below that.
\<close>

theorem loop_volume_tracks_within_band:
  "lastpoti (loop_volume 6 ((initial (\<lambda>a. 255))\<lparr>lastpoti := 5\<rparr>)) = 6"
  by (simp add: loop_volume_lastpoti initial_def)

section \<open>Buttons\<close>

lemma pressedPREV_iff: "pressedPREV buttons \<longleftrightarrow> 771 \<le> buttons \<and> buttons \<le> 809"
  by (auto simp add: pressedPREV_def PREV_def word_less_nat_alt word_le_nat_alt)

lemma pressedOK_iff: "pressedOK buttons \<longleftrightarrow> 693 \<le> buttons \<and> buttons \<le> 731"
  by (auto simp add: pressedOK_def OK_def word_less_nat_alt word_le_nat_alt)

lemma pressedNEXT_iff: "pressedNEXT buttons \<longleftrightarrow> 533 \<le> buttons \<and> buttons \<le> 571"
  by (auto simp add: pressedNEXT_def NEXT_def word_less_nat_alt word_le_nat_alt)

lemma pressed_exclusive:
  "\<not> (pressedPREV buttons \<and> pressedOK buttons)"
  "\<not> (pressedPREV buttons \<and> pressedNEXT buttons)"
  "\<not> (pressedOK buttons \<and> pressedNEXT buttons)"
  by (auto simp add: pressedPREV_iff pressedOK_iff pressedNEXT_iff word_le_nat_alt)

lemma pressed_below_1000:
  "pressedPREV buttons \<or> pressedOK buttons \<or> pressedNEXT buttons \<Longrightarrow> buttons < 1000"
  by (auto simp add: pressedPREV_iff pressedOK_iff pressedNEXT_iff word_le_nat_alt word_less_nat_alt)

lemma classify_pressed:
  "classify buttons =
     (if pressedPREV buttons then Previous
      else if pressedOK buttons then OkToggle
      else if pressedNEXT buttons then Next
      else NoButton)"
  by (simp add: classify_def pressedPREV_iff pressedOK_iff pressedNEXT_iff)

lemma handle_NoButton [simp]: "handle rfc NoButton s = s"
  by (simp add: handle_def)

lemma loop_dispatch_handle: "loop_dispatch rfc buttons s = handle rfc (classify buttons) s"
  using pressed_exclusive [of buttons]
  by (auto simp add: loop_dispatch_def Let_def classify_pressed handle_def)

lemma classify_idle: "\<not> buttons < 1000 \<Longrightarrow> classify buttons = NoButton"
  using pressed_below_1000 [of buttons] by (auto simp add: classify_pressed)

text \<open>
  C4 (as stated: Previous for samples in [770, 810]). The sample 770 is in the stated
  window, but \<open>buttons > (PREV - 20)\<close> is false for it: the sketch runs no handler,
  where the handler of Previous would have moved on to folder 2.
\<close>

theorem classify_counterexample:
  "classify_spec 770 = Previous \<and> \<not> pressedPREV 770 \<and>
   folder (handle (\<lambda>f. 3) (classify_spec 770) ((initial (\<lambda>a. 255))\<lparr>foldercounts := 3\<rparr>)) = 2 \<and>
   folder (loop_dispatch (\<lambda>f. 3) 770 ((initial (\<lambda>a. 255))\<lparr>foldercounts := 3\<rparr>)) = 1"
  by (simp add: classify_spec_def pressedPREV_iff loop_dispatch_handle classify_def
      handle_def onPREV_def Let_def initial_def)

text \<open>
  C4 (amended). What the button section does is a function of the one sample alone: it
  runs the handler of exactly one of Previous, Next, OkToggle or none, where the
  windows exclude their end points: Previous for samples in [771, 809], OkToggle for
  [693, 731], Next for [533, 571], none for every other sample. The three window tests
  of the sketch are these intervals and no two hold together.
\<close>

theorem loop_buttons_classify:
  "loop_dispatch rfc buttons s = handle rfc (classify buttons) s \<and>
   loop_buttons rfc buttons release s =
     (if buttons < 1000
      then (case waitRelease release of
              Inl e \<Rightarrow> Inl e
            | Inr rest \<Rightarrow> Inr (handle rfc (classify buttons) s))
      else Inr (handle rfc (classify buttons) s)) \<and>
   (pressedPREV buttons \<longleftrightarrow> classify buttons = Previous) \<and>
   (pressedOK buttons \<longleftrightarrow> classify buttons = OkToggle) \<and>
   (pressedNEXT buttons \<longleftrightarrow> classify buttons = Next) \<and>
   (classify buttons = Previous \<longleftrightarrow> 771 \<le> unat buttons \<and> unat buttons \<le> 809) \<and>
   (classify buttons = OkToggle \<longleftrightarrow> 693 \<le> unat buttons \<and> unat buttons \<le> 731) \<and>
   (classify buttons = Next \<longleftrightarrow> 533 \<le> unat buttons \<and> unat buttons \<le> 571)"
proof -
  have 1: "loop_dispatch rfc buttons s = handle rfc (classify buttons) s"
    by (rule loop_dispatch_handle)
  have 2: "loop_buttons rfc buttons release s =
     (if buttons < 1000
      then (case waitRelease release of
              Inl e \<Rightarrow> Inl e
            | Inr rest \<Rightarrow> Inr (handle rfc (classify buttons) s))
      else Inr (handle rfc (classify buttons) s))"
    by (simp add: loop_buttons_def loop_dispatch_handle classify_idle)
  have 3: "(pressedPREV buttons \<longleftrightarrow> classify buttons = Previous) \<and>
       (pressedOK buttons \<longleftrightarrow> classify buttons = OkToggle) \<and>
       (pressedNEXT buttons \<longleftrightarrow> classify buttons = Next)"
    using pressed_exclusive [of buttons] by (auto simp add: classify_pressed)
  have 4: "(classify buttons = Previous \<longleftrightarrow> 771 \<le> unat buttons \<and> unat buttons \<le> 809) \<and>
       (classify buttons = OkToggle \<longleftrightarrow> 693 \<le> unat buttons \<and> unat buttons \<le> 731) \<and>
       (classify buttons = Next \<longleftrightarrow> 533 \<le> unat buttons \<and> unat buttons \<le> 571)"
    by (auto simp add: classify_def word_le_nat_alt)
  from 1 2 3 4 show ?thesis by simp
qed

theorem loop_buttons_classify_witness:
  "classify 790 = Previous \<and> pressedPREV 790 \<and>
   folder (loop_dispatch (\<lambda>f. 3) 790 ((initial (\<lambda>a. 255))\<lparr>foldercounts := 3\<rparr>)) = 2 \<and>
   classify 810 = NoButton \<and>
   loop_dispatch (\<lambda>f. 3) 810 ((initial (\<lambda>a. 255))\<lparr>foldercounts := 3\<rparr>) =
     (initial (\<lambda>a. 255))\<lparr>foldercounts := 3\<rparr>"
  using loop_buttons_classify [of "\<lambda>f. 3" 790 "(initial (\<lambda>a. 255))\<lparr>foldercounts := 3\<rparr>" "[]"]
        loop_buttons_classify [of "\<lambda>f. 3" 810 "(initial (\<lambda>a. 255))\<lparr>foldercounts := 3\<rparr>" "[]"]
  by (simp add: classify_def handle_def onPREV_def Let_def initial_def)

section \<open>Battery level\<close>

lemma constrain_clamps:
  assumes "low \<le> high"
  shows "unat (constrain amt low high) = max (unat low) (min (unat high) (unat amt))"
  using assms by (auto simp add: constrain_def word_less_nat_alt word_le_nat_alt)

lemma unat_ucast_adc: "unat (ucast (adc :: u16) :: u32) = unat adc"
proof -
  have "unat adc < 2 ^ LENGTH(16)"
    by (rule unsigned_less)
  then show ?thesis
    by (simp add: unsigned_ucast_eq take_bit_nat_eq_self)
qed

lemma getBatLevel_value:
  assumes "adc \<noteq> 0"
  shows "getBatLevel adc = Inr (ucast ((constrain (1125300 div ucast adc) 3200 4100 - 3200) div 9 :: u32))"
proof -
  have "unat (ucast adc :: u32) \<noteq> 0"
    using assms by (simp add: unat_ucast_adc unat_eq_0)
  then have "(ucast adc :: u32) \<noteq> 0"
    by (simp add: unat_eq_0)
  then show ?thesis
    by (simp add: getBatLevel_def Let_def)
qed

lemma getBatLevel_unat:
  "unat ((constrain (1125300 div ucast (adc :: u16)) 3200 4100 - 3200) div 9 :: u32) =
     batLevel_spec (unat adc)"
proof -
  have up: "unat (ucast adc :: u32) = unat adc"
    by (rule unat_ucast_adc)
  have q: "unat (1125300 div ucast adc :: u32) = 1125300 div unat adc"
    by (simp add: unat_div up)
  have c: "unat (constrain (1125300 div ucast adc :: u32) 3200 4100) =
             max 3200 (min 4100 (1125300 div unat adc))"
    by (simp add: constrain_clamps q)
  have "(3200 :: u32) \<le> constrain (1125300 div ucast adc) 3200 4100"
    by (simp add: word_le_nat_alt c)
  then have "unat (constrain (1125300 div ucast adc :: u32) 3200 4100 - 3200) =
               max 3200 (min 4100 (1125300 div unat adc)) - 3200"
    by (simp add: unat_sub c)
  then show ?thesis
    by (simp add: unat_div batLevel_spec_def)
qed

lemma batLevel_spec_le: "batLevel_spec r \<le> 100"
  by (simp add: batLevel_spec_def)


text \<open>
  C5 (as stated: for every raw count R). For R = 0 the sketch divides by zero, which C
  leaves undefined: no result is computed.
\<close>

theorem getBatLevel_counterexample: "getBatLevel 0 = Inl DivisionByZero"
  by (simp add: getBatLevel_def)

text \<open>
  C5 (amended). For every raw count R other than 0, getBatLevel returns the percentage
  of the specification: mV = 1125300 div R (exact integer division), clamped to
  3200 .. 4100, then (mV - 3200) div 9. The result fits the \<open>uint8_t\<close> unchanged and
  lies in 0 .. 100; it is 0 when the clamped mV is 3200 and 100 when it is 4100.
\<close>

theorem getBatLevel_percent:
  assumes "adc \<noteq> 0"
  shows "getBatLevel adc = Inr (of_nat (batLevel_spec (unat adc))) \<and>
         unat (of_nat (batLevel_spec (unat adc)) :: u8) = batLevel_spec (unat adc) \<and>
         batLevel_spec (unat adc) \<le> 100 \<and>
         (max 3200 (min 4100 (1125300 div unat adc)) = 3200 \<longrightarrow> getBatLevel adc = Inr 0) \<and>
         (max 3200 (min 4100 (1125300 div unat adc)) = 4100 \<longrightarrow> getBatLevel adc = Inr 100)"
proof -
  have "getBatLevel adc =
          Inr (of_nat (unat ((constrain (1125300 div ucast adc) 3200 4100 - 3200) div 9 :: u32)))"
    using getBatLevel_value [OF assms] by simp
  then have val: "getBatLevel adc = Inr (of_nat (batLevel_spec (unat adc)))"
    by (simp only: getBatLevel_unat)
  have le: "batLevel_spec (unat adc) \<le> 100"
    by (rule batLevel_spec_le)
  then have fits: "unat (of_nat (batLevel_spec (unat adc)) :: u8) = batLevel_spec (unat adc)"
    by (simp add: unat_of_nat)
  have lo: "max 3200 (min 4100 (1125300 div unat adc)) = 3200 \<longrightarrow> getBatLevel adc = Inr 0"
    by (simp add: val batLevel_spec_def)
  have hi: "max 3200 (min 4100 (1125300 div unat adc)) = 4100 \<longrightarrow> getBatLevel adc = Inr 100"
    by (simp add: val batLevel_spec_def)
  from val fits le lo hi show ?thesis by simp
qed

theorem getBatLevel_percent_witness:
  "getBatLevel 300 = Inr 61 \<and> batLevel_spec 300 = 61 \<and>
   getBatLevel 1023 = Inr 0 \<and> getBatLevel 274 = Inr 100"
  using getBatLevel_percent [of 300] getBatLevel_percent [of 1023] getBatLevel_percent [of 274]
  by (simp add: batLevel_spec_def)

section \<open>Averaging eight conversions\<close>

lemma denoise_loop_unrolled:
  "denoise_loop adc 0 0 =
     adc 0 + adc 1 + adc 2 + adc 3 + adc 4 + adc 5 + adc 6 + adc 7"
  by (simp add: denoise_loop.simps)

lemma sum_upto_8:
  "(\<Sum>k<8. f k) = f 0 + f 1 + f 2 + f 3 + f 4 + f 5 + f 6 + f 7" for f :: "nat \<Rightarrow> nat"
  by (simp add: eval_nat_numeral)

text \<open>
  C10. When each of the eight conversions is at most 1023, the \<open>uint16_t\<close> accumulator
  holds their exact sum (at most 8184, so nothing wraps), and denoiseAnalog returns
  that sum divided by 8 and rounded down: the floor of the mean.
\<close>

theorem denoiseAnalog_mean:
  assumes "\<forall>k<8. adc k \<le> 1023"
  shows "unat (denoise_loop adc 0 0) = (\<Sum>k<8. unat (adc k)) \<and>
         (\<Sum>k<8. unat (adc k)) \<le> 8184 \<and>
         unat (denoiseAnalog adc) = (\<Sum>k<8. unat (adc k)) div 8"
proof -
  have b: "unat (adc 0) \<le> 1023" "unat (adc 1) \<le> 1023" "unat (adc 2) \<le> 1023"
    "unat (adc 3) \<le> 1023" "unat (adc 4) \<le> 1023" "unat (adc 5) \<le> 1023"
    "unat (adc 6) \<le> 1023" "unat (adc 7) \<le> 1023"
    using assms by (simp_all add: word_le_nat_alt)
  then have bound: "(\<Sum>k<8. unat (adc k)) \<le> 8184"
    unfolding sum_upto_8 by arith
  have "unat (denoise_loop adc 0 0) = (\<Sum>k<8. unat (adc k)) mod 65536"
    unfolding sum_upto_8 denoise_loop_unrolled
    by (simp add: unat_word_ariths mod_simps)
  then have acc: "unat (denoise_loop adc 0 0) = (\<Sum>k<8. unat (adc k))"
    using bound by simp
  have "unat (denoiseAnalog adc) = unat (denoise_loop adc 0 0) div 8"
    by (simp add: denoiseAnalog_def drop_bit_eq_div unat_div)
  with acc bound show ?thesis by simp
qed

theorem denoiseAnalog_mean_witness:
  "unat (denoiseAnalog (\<lambda>k. 1023)) = 1023 \<and> unat (denoiseAnalog (\<lambda>k. of_nat k)) = 3"
  using denoiseAnalog_mean [of "\<lambda>k. 1023"] denoiseAnalog_mean [of "\<lambda>k. of_nat k"]
  by (simp add: sum_upto_8 word_le_nat_alt unat_of_nat)

section \<open>Battery check and low-battery lockout\<close>

lemma funpow_sleep_simps [simp]:
  "filecounts ((sleep ^^ n) s) = filecounts s"
  "foldercounts ((sleep ^^ n) s) = foldercounts s"
  "batlevel ((sleep ^^ n) s) = batlevel s"
  "volume ((sleep ^^ n) s) = volume s"
  "folder ((sleep ^^ n) s) = folder s"
  "file ((sleep ^^ n) s) = file s"
  "pause ((sleep ^^ n) s) = pause s"
  "batcounter ((sleep ^^ n) s) = batcounter s"
  "lastpoti ((sleep ^^ n) s) = lastpoti s"
  "eeprom ((sleep ^^ n) s) = eeprom s"
  by (induction n) simp_all

lemma funpow_sleep_trace [simp]:
  "trace ((sleep ^^ n) s) = trace s @ replicate n Sleep"
  by (induction n) (simp_all add: replicate_append_same)

text \<open>The waiting loop only sleeps: it returns the state it started from, slept some times.\<close>

lemma waitRecharge_sleeps:
  "waitRecharge adcs s = Inr (rest, s') \<Longrightarrow> \<exists>n. s' = (sleep ^^ n) s"
proof (induction adcs arbitrary: s)
  case Nil
  then show ?case by simp
next
  case (Cons adc adcs)
  show ?case
  proof (cases "getBatLevel adc")
    case (Inl e)
    with Cons.prems show ?thesis by simp
  next
    case (Inr level)
    show ?thesis
    proof (cases "level < 10")
      case True
      with Inr Cons.prems have "waitRecharge adcs (sleep s) = Inr (rest, s')"
        by simp
      then obtain n where "s' = (sleep ^^ n) (sleep s)"
        using Cons.IH by blast
      then have "s' = (sleep ^^ Suc n) s"
        by (simp only: funpow_Suc_right o_apply)
      then show ?thesis ..
    next
      case False
      with Inr Cons.prems have "s' = (sleep ^^ 0) s"
        by simp
      then show ?thesis ..
    qed
  qed
qed

text \<open>
  It sleeps once for every conversion that gives a level below 10 and returns at the
  first that gives 10 or more; while all conversions are below 10 it has not returned.
\<close>

lemma waitRecharge_until:
  assumes "\<forall>r\<in>set low. \<exists>l. getBatLevel r = Inr l \<and> l < 10"
    and "getBatLevel hi = Inr h" and "10 \<le> h"
  shows "waitRecharge (low @ hi # rest) s = Inr (rest, (sleep ^^ length low) s)"
  using assms(1)
proof (induction low arbitrary: s)
  case Nil
  from assms(3) have "\<not> h < 10"
    by (simp add: not_less)
  with assms(2) show ?case
    by simp
next
  case (Cons r low)
  then obtain l where "getBatLevel r = Inr l" and "l < 10"
    by auto
  moreover have "waitRecharge (low @ hi # rest) (sleep s) = Inr (rest, (sleep ^^ length low) (sleep s))"
    using Cons by simp
  ultimately show ?case
    by (simp add: funpow_swap1)
qed

lemma waitRecharge_blocked:
  assumes "\<forall>r\<in>set low. \<exists>l. getBatLevel r = Inr l \<and> l < 10"
  shows "waitRecharge low s = Inl InputExhausted"
  using assms by (induction low arbitrary: s) auto

lemma checkBatLevel_ok:
  assumes "getBatLevel adc0 = Inr level" and "level \<noteq> 0"
  shows "checkBatLevel (adc0 # adcs) s =
           Inr (s\<lparr>batlevel := level, batcounter := 600,
                  trace := trace s @ [OledFrame (StatusScreen (folder s) (foldercounts s) (file s)
                                        (filecounts s) level (pause s) (volume s))]\<rparr>)"
  using assms by (simp add: checkBatLevel_def nextBatLevel_def updateOLED_def emit_def)

lemma funpow_sleep_eq: "(sleep ^^ n) s = s\<lparr>trace := trace s @ replicate n Sleep\<rparr>"
  by (induction n) (simp_all add: sleep_def emit_def replicate_append_same)

text \<open>
  C6. When the first conversion of a battery check gives level 0, and the conversions
  that follow stay below 10 for a while (\<open>low\<close>) before one gives 10 or more, the check
  returns: it has dimmed the display and shown the battery-empty screen, paused the
  decoder if the player was not paused, slept once per low conversion, restored the
  contrast, started the decoder again if the player was not paused, and redrawn the
  status screen. Only batlevel, batcounter and the trace differ from the state on
  entry: folder, file, volume and the pause flag are as they were. While every
  conversion stays below 10 the check has not returned.
\<close>

theorem checkBatLevel_lockout:
  assumes "getBatLevel adc0 = Inr 0"
    and "\<forall>r\<in>set low. \<exists>l. getBatLevel r = Inr l \<and> l < 10"
    and "getBatLevel hi = Inr h" and "10 \<le> h"
    and "getBatLevel adc1 = Inr level1"
  shows "checkBatLevel (adc0 # low @ hi # adc1 # rest) s =
           Inr (s\<lparr>batlevel := level1, batcounter := 600,
                  trace := trace s @
                    [OledContrast DIMM, OledFrame EmptyScreen] @
                    (if pause s then [] else [PlayerPause]) @
                    replicate (length low) Sleep @
                    [OledContrast BRIGHT] @
                    (if pause s then [] else [PlayerStart]) @
                    [OledFrame (StatusScreen (folder s) (foldercounts s) (file s)
                       (filecounts s) level1 (pause s) (volume s))]\<rparr>) \<and>
         checkBatLevel (adc0 # low) s = Inl InputExhausted"
proof -
  note w = waitRecharge_until [OF assms(2,3,4), of "adc1 # rest"]
  have "checkBatLevel (adc0 # low @ hi # adc1 # rest) s =
           Inr (s\<lparr>batlevel := level1, batcounter := 600,
                  trace := trace s @
                    [OledContrast DIMM, OledFrame EmptyScreen] @
                    (if pause s then [] else [PlayerPause]) @
                    replicate (length low) Sleep @
                    [OledContrast BRIGHT] @
                    (if pause s then [] else [PlayerStart]) @
                    [OledFrame (StatusScreen (folder s) (foldercounts s) (file s)
                       (filecounts s) level1 (pause s) (volume s))]\<rparr>)"
    using assms(1,5)
    by (simp add: checkBatLevel_def nextBatLevel_def w funpow_sleep_eq updateOLED_def emit_def)
  moreover have "checkBatLevel (adc0 # low) s = Inl InputExhausted"
    using assms(1)
    by (simp add: checkBatLevel_def nextBatLevel_def waitRecharge_blocked [OF assms(2)])
  ultimately show ?thesis by simp
qed

lemma getBatLevel_1023: "getBatLevel 1023 = Inr 0"
  by (simp add: getBatLevel_def constrain_def)

lemma getBatLevel_350: "getBatLevel 350 = Inr 1"
  by (simp add: getBatLevel_def constrain_def)

theorem checkBatLevel_lockout_witness:
  "checkBatLevel [1023, 350, 350, 300, 300] (initial (\<lambda>a. 255)) =
     Inr ((initial (\<lambda>a. 255))\<lparr>batlevel := 61, batcounter := 600,
            trace := [OledContrast DIMM, OledFrame EmptyScreen, PlayerPause, Sleep, Sleep,
                      OledContrast BRIGHT, PlayerStart,
                      OledFrame (StatusScreen 1 0 1 0 61 False 20)]\<rparr>) \<and>
   checkBatLevel [1023, 350, 350] (initial (\<lambda>a. 255)) = Inl InputExhausted"
  using checkBatLevel_lockout [of 1023 "[350, 350]" 300 61 300 61 "[]" "initial (\<lambda>a. 255)"]
  by (simp add: getBatLevel_1023 getBatLevel_350 getBatLevel_300 initial_def)

lemma checkBatLevel_kept:
  assumes "checkBatLevel adcs s = Inr s'"
  shows "pause s' = pause s" and "folder s' = folder s" and "file s' = file s"
    and "volume s' = volume s" and "filecounts s' = filecounts s"
    and "foldercounts s' = foldercounts s" and "eeprom s' = eeprom s"
    and "lastpoti s' = lastpoti s"
  using assms
  by (auto simp add: checkBatLevel_def nextBatLevel_def Let_def
      split: list.splits sum.splits if_splits prod.splits dest!: waitRecharge_sleeps)

lemma checkBatLevel_player_cmds:
  assumes "checkBatLevel adcs s = Inr s'"
  shows "filter is_player_cmd (issued s s') =
           (if getBatLevel (hd adcs) = Inr 0 \<and> \<not> pause s then [PlayerPause, PlayerStart] else [])"
  using assms
  by (auto simp add: checkBatLevel_def nextBatLevel_def Let_def issued_def
      split: list.splits sum.splits if_splits prod.splits dest!: waitRecharge_sleeps)

text \<open>
  C9. A battery check that returns leaves the pause flag, folder, file and volume as
  they were: it never assigns them. The decoder commands it sends are a pause followed
  by a start when the first conversion gave level 0 and the flag is false, and none
  otherwise, so the flag stays false through a lockout entered while playing. While
  the check waits, the state only collects sleeps.
\<close>

theorem checkBatLevel_frame:
  assumes "checkBatLevel adcs s = Inr s'"
  shows "pause s' = pause s \<and> folder s' = folder s \<and> file s' = file s \<and>
         volume s' = volume s \<and>
         filter is_player_cmd (issued s s') =
           (if getBatLevel (hd adcs) = Inr 0 \<and> \<not> pause s
            then [PlayerPause, PlayerStart] else []) \<and>
         (\<forall>adcs1 t rest t'. waitRecharge adcs1 t = Inr (rest, t') \<longrightarrow>
            pause t' = pause t \<and> folder t' = folder t \<and> file t' = file t \<and>
            volume t' = volume t)"
proof -
  have "pause t' = pause t \<and> folder t' = folder t \<and> file t' = file t \<and> volume t' = volume t"
    if "waitRecharge adcs1 t = Inr (rest, t')" for adcs1 t rest t'
    using waitRecharge_sleeps [OF that] by auto
  then show ?thesis
    using checkBatLevel_kept(1-4) [OF assms] checkBatLevel_player_cmds [OF assms] by blast
qed

theorem checkBatLevel_frame_witness:
  "pause (projr (checkBatLevel [1023, 350, 350, 300, 300] (initial (\<lambda>a. 255)))) = False \<and>
   folder (projr (checkBatLevel [1023, 350, 350, 300, 300] (initial (\<lambda>a. 255)))) = 1 \<and>
   file (projr (checkBatLevel [1023, 350, 350, 300, 300] (initial (\<lambda>a. 255)))) = 1 \<and>
   volume (projr (checkBatLevel [1023, 350, 350, 300, 300] (initial (\<lambda>a. 255)))) = 20 \<and>
   filter is_player_cmd
     (issued (initial (\<lambda>a. 255))
        (projr (checkBatLevel [1023, 350, 350, 300, 300] (initial (\<lambda>a. 255))))) =
     [PlayerPause, PlayerStart]"
proof -
  have r: "checkBatLevel [1023, 350, 350, 300, 300] (initial (\<lambda>a. 255)) =
      Inr (projr (checkBatLevel [1023, 350, 350, 300, 300] (initial (\<lambda>a. 255))))"
    by (simp add: checkBatLevel_def nextBatLevel_def getBatLevel_1023 getBatLevel_350
        getBatLevel_300 Let_def)
  show ?thesis
    using checkBatLevel_frame [OF r] by (simp add: getBatLevel_1023 initial_def)
qed

section \<open>Reachable states and the 8-bit file counter\<close>

lemma onOK_kept [simp]:
  "filecounts (onOK s) = filecounts s"
  "foldercounts (onOK s) = foldercounts s"
  "folder (onOK s) = folder s"
  "file (onOK s) = file s"
  "volume (onOK s) = volume s"
  "eeprom (onOK s) = eeprom s"
  "pause (onOK s) = (\<not> pause s)"
  by (simp_all add: onOK_def Let_def)

lemma issued_file_update [simp]: "issued (s\<lparr>file := v\<rparr>) s' = issued s s'"
  by (simp add: issued_def)

text \<open>
  After startFolderPlay either folder is within foldercounts or the folder branch has
  just set file to 1; no other statement of the sketch changes folder, file or
  foldercounts without calling startFolderPlay afterwards.
\<close>

lemma startFolderPlay_folder_or_first:
  "folder (startFolderPlay rfc s) \<le> foldercounts (startFolderPlay rfc s) \<or>
   file (startFolderPlay rfc s) = 1"
  by auto

lemma setup_sketch_result:
  assumes "setup_sketch begin_ok adcs nfolders rfc ee = Inr s"
  shows "\<exists>t. s = startFolderPlay rfc t"
  using assms
  by (auto simp add: setup_sketch_def Let_def split: if_splits sum.splits)

lemma handle_folder_or_first:
  assumes "folder s \<le> foldercounts s \<or> file s = 1"
  shows "folder (handle rfc ev s) \<le> foldercounts (handle rfc ev s) \<or> file (handle rfc ev s) = 1"
proof (cases ev)
  case Previous
  then show ?thesis
    by (simp only: handle_def onPREV_def Let_def ButtonEvent.case startFolderPlay_folder_or_first)
next
  case Next
  then show ?thesis
    by (simp only: handle_def onNEXT_def ButtonEvent.case startFolderPlay_folder_or_first)
next
  case OkToggle
  with assms show ?thesis
    by (simp add: handle_def)
next
  case NoButton
  with assms show ?thesis
    by simp
qed

lemma reachable_folder_or_first:
  assumes "reachable s"
  shows "folder s \<le> foldercounts s \<or> file s = 1"
  using assms
proof (induction rule: reachable.induct)
  case (reach_setup begin_ok adcs nfolders rfc ee s)
  then obtain t where "s = startFolderPlay rfc t"
    using setup_sketch_result by blast
  then show ?case
    by (simp only: startFolderPlay_folder_or_first)
next
  case (reach_status s rfc msg)
  show ?case
  proof (cases "msg = Some DFPlayerPlayFinished")
    case True
    then have "loop_status rfc msg s = startFolderPlay rfc (s\<lparr>file := file s + 1\<rparr>)"
      by (simp add: loop_status_def)
    then show ?thesis
      by (simp only: startFolderPlay_folder_or_first)
  next
    case False
    then have "loop_status rfc msg s = s"
      by (cases msg) (simp_all add: loop_status_def)
    with reach_status.IH show ?thesis
      by simp
  qed
next
  case (reach_volume s getpoti)
  then show ?case
    by simp
next
  case (reach_buttons s rfc buttons release s')
  from reach_buttons.hyps(2) have "s' = handle rfc (classify buttons) s"
    by (simp add: loop_buttons_def loop_dispatch_handle classify_idle
        split: if_splits sum.splits)
  with reach_buttons.IH show ?case
    by (simp only: handle_folder_or_first)
next
  case (reach_battery s adcs s')
  show ?case
  proof (cases "batcounter s - 1 = 0")
    case True
    with reach_battery.hyps(2)
    have c: "checkBatLevel adcs (s\<lparr>batcounter := batcounter s - 1\<rparr>) = Inr s'"
      by (simp add: loop_battery_def Let_def)
    show ?thesis
      using reach_battery.IH checkBatLevel_kept(2,3,6) [OF c] by simp
  next
    case False
    with reach_battery.hyps(2) have "s' = s\<lparr>batcounter := batcounter s - 1\<rparr>"
      by (simp add: loop_battery_def Let_def)
    with reach_battery.IH show ?thesis
      by simp
  qed
next
  case (reach_sleep s)
  then show ?case
    by simp
qed

text \<open>Every pass of the loop, and so every run of passes, stays within the reachable states.\<close>

lemma loop_reachable:
  assumes "reachable s" and "loop i s = Inr s'"
  shows "reachable s'"
proof -
  let ?s2 = "loop_volume (denoiseAnalog (in_poti i)) (loop_status (in_rfc i) (in_msg i) s)"
  from assms(2) obtain s3 s4
    where b: "loop_buttons (in_rfc i) (in_buttons i) (in_release i) ?s2 = Inr s3"
      and c: "loop_battery (in_battery i) s3 = Inr s4" and d: "s' = sleep s4"
    by (auto simp add: loop_def Let_def split: sum.splits)
  have "reachable ?s2"
    using assms(1) by (intro reach_volume reach_status)
  then have "reachable s3"
    using b by (rule reach_buttons)
  then have "reachable s4"
    using c by (rule reach_battery)
  then show ?thesis
    unfolding d by (rule reach_sleep)
qed

lemma run_loop_reachable:
  assumes "reachable s" and "run_loop is s = Inr s'"
  shows "reachable s'"
  using assms
proof (induction "is" arbitrary: s)
  case Nil
  then show ?case by simp
next
  case (Cons i "is")
  from Cons.prems(2) obtain t where t: "loop i s = Inr t" and r: "run_loop is t = Inr s'"
    by (auto split: sum.splits)
  from Cons.prems(1) t have "reachable t"
    by (rule loop_reachable)
  then show ?case
    using r by (rule Cons.IH)
qed

text \<open>
  C8. file is a \<open>uint8_t\<close>. In a reachable state with file = 255, the increment of a
  finished track or of a Next press wraps it to 0; startFolderPlay resets file only
  when it is above filecounts, so it stays 0, folder is kept, and the one decoder
  command sent is the play command for (folder, 0).
\<close>

theorem file_wraps_to_zero:
  assumes "reachable s" and "file s = 255"
  shows "file s + 1 = 0 \<and>
         file (loop_status rfc (Some DFPlayerPlayFinished) s) = 0 \<and>
         folder (loop_status rfc (Some DFPlayerPlayFinished) s) = folder s \<and>
         filter is_player_cmd (issued s (loop_status rfc (Some DFPlayerPlayFinished) s)) =
           [PlayerPlayFolder (folder s) 0] \<and>
         (pressedNEXT buttons \<longrightarrow>
            file (loop_dispatch rfc buttons s) = 0 \<and>
            folder (loop_dispatch rfc buttons s) = folder s \<and>
            filter is_player_cmd (issued s (loop_dispatch rfc buttons s)) =
              [PlayerPlayFolder (folder s) 0])"
proof -
  have wrap: "file s + 1 = 0"
    using assms(2) by simp
  have "folder s \<le> foldercounts s"
    using reachable_folder_or_first [OF assms(1)] assms(2) by auto
  then have inside: "\<not> foldercounts s < folder s"
    by (simp add: not_less)
  let ?s' = "startFolderPlay rfc (s\<lparr>file := 0\<rparr>)"
  have sfp: "file ?s' = 0 \<and> folder ?s' = folder s \<and>
             filter is_player_cmd (issued s ?s') = [PlayerPlayFolder (folder s) 0]"
    using inside startFolderPlay_player_cmds [of "s\<lparr>file := 0\<rparr>" rfc] by simp
  have status: "loop_status rfc (Some DFPlayerPlayFinished) s = ?s'"
    by (simp add: loop_status_def wrap)
  have "loop_dispatch rfc buttons s = ?s'" if "pressedNEXT buttons"
    using that pressed_exclusive [of buttons]
    by (auto simp add: loop_dispatch_def Let_def onNEXT_def wrap)
  with sfp status wrap show ?thesis
    by simp
qed

theorem file_wraps_to_zero_witness:
  "file (projr (setup_sketch True [300] 1 (\<lambda>f. 255) ((\<lambda>a. 255)(0 := 55, 2 := 1)))) = 255 \<and>
   file (loop_status (\<lambda>f. 255) (Some DFPlayerPlayFinished)
           (projr (setup_sketch True [300] 1 (\<lambda>f. 255) ((\<lambda>a. 255)(0 := 55, 2 := 1))))) = 0 \<and>
   filter is_player_cmd
     (issued (projr (setup_sketch True [300] 1 (\<lambda>f. 255) ((\<lambda>a. 255)(0 := 55, 2 := 1))))
        (loop_status (\<lambda>f. 255) (Some DFPlayerPlayFinished)
           (projr (setup_sketch True [300] 1 (\<lambda>f. 255) ((\<lambda>a. 255)(0 := 55, 2 := 1)))))) =
     [PlayerPlayFolder 1 0] \<and>
   pressedNEXT 552 \<and>
   file (loop_dispatch (\<lambda>f. 255) 552
           (projr (setup_sketch True [300] 1 (\<lambda>f. 255) ((\<lambda>a. 255)(0 := 55, 2 := 1))))) = 0"
proof -
  let ?boot = "setup_sketch True [300] 1 (\<lambda>f. 255) ((\<lambda>a. 255)(0 := 55, 2 := 1))"
  have r: "?boot = Inr (projr ?boot)"
    by (simp add: setup_sketch_def checkBatLevel_def nextBatLevel_def getBatLevel_300
        Let_def USE_EEPROM_def)
  have reach: "reachable (projr ?boot)"
    using r by (rule reach_setup)
  have f: "file (projr ?boot) = 255" and g: "folder (projr ?boot) = 1"
    by (simp_all add: setup_sketch_def checkBatLevel_def nextBatLevel_def getBatLevel_300
        Let_def USE_EEPROM_def initial_def)
  have n: "pressedNEXT 552"
    by (simp add: pressedNEXT_iff)
  show ?thesis
    using file_wraps_to_zero [OF reach f, of "\<lambda>f. 255" 552] f g n by simp
qed

section \<open>The file bound after startFolderPlay\<close>

text \<open>
  C1 (after every call of startFolderPlay in a reachable state, 1 \<le> folder \<le>
  foldercounts and 1 \<le> file \<le> filecounts, a violation on entry having been replaced
  by 1 before the play command). A card with one folder of 255 files, the most the
  decoder supports, and an EEPROM in which the sketch has stored file 255 of folder 1:
  \<open>setup()\<close> returns a state with foldercounts 1, filecounts 255 and file 255, all
  within bounds. When that track finishes, or on a Next press (sample 552), \<open>file++\<close>
  wraps to 0, the test \<open>file > filecounts\<close> is false, and startFolderPlay leaves file
  at 0, below the bound 1, sends the play command for (1, 0) and stores 0 in the
  EEPROM. The state is reachable.
\<close>

theorem startFolderPlay_file_zero:
  "\<not> isl (setup_sketch True [300] 1 (\<lambda>f. 255) ((\<lambda>a. 255)(0 := 55, 2 := 1))) \<and>
   reachable (projr (setup_sketch True [300] 1 (\<lambda>f. 255) ((\<lambda>a. 255)(0 := 55, 2 := 1)))) \<and>
   foldercounts (projr (setup_sketch True [300] 1 (\<lambda>f. 255) ((\<lambda>a. 255)(0 := 55, 2 := 1)))) = 1 \<and>
   folder (projr (setup_sketch True [300] 1 (\<lambda>f. 255) ((\<lambda>a. 255)(0 := 55, 2 := 1)))) = 1 \<and>
   filecounts (projr (setup_sketch True [300] 1 (\<lambda>f. 255) ((\<lambda>a. 255)(0 := 55, 2 := 1)))) = 255 \<and>
   file (projr (setup_sketch True [300] 1 (\<lambda>f. 255) ((\<lambda>a. 255)(0 := 55, 2 := 1)))) = 255 \<and>
   reachable (loop_status (\<lambda>f. 255) (Some DFPlayerPlayFinished)
      (projr (setup_sketch True [300] 1 (\<lambda>f. 255) ((\<lambda>a. 255)(0 := 55, 2 := 1))))) \<and>
   file (loop_status (\<lambda>f. 255) (Some DFPlayerPlayFinished)
      (projr (setup_sketch True [300] 1 (\<lambda>f. 255) ((\<lambda>a. 255)(0 := 55, 2 := 1))))) = 0 \<and>
   filecounts (loop_status (\<lambda>f. 255) (Some DFPlayerPlayFinished)
      (projr (setup_sketch True [300] 1 (\<lambda>f. 255) ((\<lambda>a. 255)(0 := 55, 2 := 1))))) = 255 \<and>
   \<not> 1 \<le> file (loop_status (\<lambda>f. 255) (Some DFPlayerPlayFinished)
      (projr (setup_sketch True [300] 1 (\<lambda>f. 255) ((\<lambda>a. 255)(0 := 55, 2 := 1))))) \<and>
   filter is_player_cmd
     (issued (projr (setup_sketch True [300] 1 (\<lambda>f. 255) ((\<lambda>a. 255)(0 := 55, 2 := 1))))
        (loop_status (\<lambda>f. 255) (Some DFPlayerPlayFinished)
           (projr (setup_sketch True [300] 1 (\<lambda>f. 255) ((\<lambda>a. 255)(0 := 55, 2 := 1)))))) =
     [PlayerPlayFolder 1 0] \<and>
   eeprom (loop_status (\<lambda>f. 255) (Some DFPlayerPlayFinished)
      (projr (setup_sketch True [300] 1 (\<lambda>f. 255) ((\<lambda>a. 255)(0 := 55, 2 := 1))))) 1 = 0 \<and>
   file (loop_dispatch (\<lambda>f. 255) 552
      (projr (setup_sketch True [300] 1 (\<lambda>f. 255) ((\<lambda>a. 255)(0 := 55, 2 := 1))))) = 0 \<and>
   filter is_player_cmd
     (issued (projr (setup_sketch True [300] 1 (\<lambda>f. 255) ((\<lambda>a. 255)(0 := 55, 2 := 1))))
        (loop_dispatch (\<lambda>f. 255) 552
           (projr (setup_sketch True [300] 1 (\<lambda>f. 255) ((\<lambda>a. 255)(0 := 55, 2 := 1)))))) =
     [PlayerPlayFolder 1 0]"
proof -
  let ?boot = "setup_sketch True [300] 1 (\<lambda>f. 255) ((\<lambda>a. 255)(0 := 55, 2 := 1))"
  let ?s = "projr ?boot"
  have r: "?boot = Inr ?s"
    by (simp add: setup_sketch_def checkBatLevel_def nextBatLevel_def getBatLevel_300
        Let_def USE_EEPROM_def)
  then have ok: "\<not> isl ?boot"
    by (metis sum.disc(2))
  have reach: "reachable ?s"
    using r by (rule reach_setup)
  then have reach': "reachable (loop_status (\<lambda>f. 255) (Some DFPlayerPlayFinished) ?s)"
    by (rule reach_status)
  have f: "foldercounts ?s = 1" "folder ?s = 1" "filecounts ?s = 255" "file ?s = 255"
    by (simp_all add: setup_sketch_def checkBatLevel_def nextBatLevel_def getBatLevel_300
        Let_def USE_EEPROM_def initial_def)
  have w: "file ?s + 1 = 0"
    by (simp add: f)
  have st: "loop_status (\<lambda>f. 255) (Some DFPlayerPlayFinished) ?s =
              startFolderPlay (\<lambda>f. 255) (?s\<lparr>file := 0\<rparr>)"
    by (simp add: loop_status_def w)
  have di: "loop_dispatch (\<lambda>f. 255) 552 ?s = startFolderPlay (\<lambda>f. 255) (?s\<lparr>file := 0\<rparr>)"
    by (simp add: loop_dispatch_handle classify_def handle_def onNEXT_def w)
  have post: "file (startFolderPlay (\<lambda>f. 255) (?s\<lparr>file := 0\<rparr>)) = 0"
    "filecounts (startFolderPlay (\<lambda>f. 255) (?s\<lparr>file := 0\<rparr>)) = 255"
    "eeprom (startFolderPlay (\<lambda>f. 255) (?s\<lparr>file := 0\<rparr>)) 1 = 0"
    "filter is_player_cmd (issued ?s (startFolderPlay (\<lambda>f. 255) (?s\<lparr>file := 0\<rparr>))) =
       [PlayerPlayFolder 1 0]"
    using startFolderPlay_player_cmds [of "?s\<lparr>file := 0\<rparr>" "\<lambda>f. 255"]
    by (simp_all add: f startFolderPlay_eeprom)
  show ?thesis
    unfolding st di using ok reach reach' [unfolded st] f post by simp
qed


end
